theory Spec2Isabelle
  imports Complex_Main "HOL-Library.Word" "HOL-Library.AList"
begin

section \<open>Go values\<close>

text \<open>
  Go's \<^verbatim>\<open>int\<close> is the 64-bit two's complement integer of the usual platforms:
  \<open>+\<close> wraps around, and the comparisons of the source are the signed ones
  (\<open>\<le>s\<close>, \<open><s\<close>); \<open>sint\<close> reads the mathematical value.
\<close>

type_synonym go_int = "64 word"

abbreviation go_max_int :: go_int where
  "go_max_int \<equiv> 9223372036854775807"

section \<open>modules/01-basics/solutions/exercise1\_fix\_bugs.go\<close>

definition CalculateSum :: "go_int \<Rightarrow> go_int \<Rightarrow> go_int" where
  "CalculateSum a b = a + b"

definition GetGrade :: "go_int \<Rightarrow> string" where
  "GetGrade score =
     (if 90 \<le>s score then ''A''
      else if 80 \<le>s score then ''B''
      else if 70 \<le>s score then ''C''
      else if 60 \<le>s score then ''D''
      else ''F'')"

text \<open>
  \<^verbatim>\<open>FindMax\<close>: the loop \<^verbatim>\<open>for _, n := range numbers\<close> visits every element in
  order, starting from \<^verbatim>\<open>max := numbers[0]\<close>, which the length check guards. The
  variable \<^verbatim>\<open>max\<close> is written \<open>mx\<close>.
\<close>

fun FindMax_loop :: "go_int list \<Rightarrow> go_int \<Rightarrow> go_int" where
  "FindMax_loop [] mx = mx"
| "FindMax_loop (n # ns) mx = FindMax_loop ns (if mx <s n then n else mx)"

definition FindMax :: "go_int list \<Rightarrow> go_int" where
  "FindMax numbers =
     (if length numbers = 0 then 0
      else FindMax_loop numbers (numbers ! 0))"

text \<open>
  \<^verbatim>\<open>Fibonacci\<close>: the loop \<^verbatim>\<open>for i := 2; i <= n; i++\<close> counts in \<^verbatim>\<open>int\<close>, so
  \<open>i + 1\<close> wraps; a run that never leaves the loop is the value \<open>None\<close>. The
  variable \<^verbatim>\<open>curr\<close> is written \<open>cur\<close>.
\<close>

partial_function (option) Fibonacci_loop ::
  "go_int \<Rightarrow> go_int \<Rightarrow> go_int \<Rightarrow> go_int \<Rightarrow> go_int option" where
  "Fibonacci_loop n i prev cur =
     (if i \<le>s n then Fibonacci_loop n (i + 1) cur (prev + cur) else Some cur)"

definition Fibonacci :: "go_int \<Rightarrow> go_int option" where
  "Fibonacci n =
     (if n = 0 then Some 0
      else if n = 1 then Some 1
      else Fibonacci_loop n 2 0 1)"

text \<open>
  \<^verbatim>\<open>AlternativeFibonacciRecursive\<close> recurses on \<open>n - 1\<close> and \<open>n - 2\<close> only when
  \<open>1 <s n\<close>, where neither subtraction wraps: the signed value decreases.
\<close>

lemma sint_pred: "1 <s (n :: go_int) \<Longrightarrow> sint (n - 1) = sint n - 1"
  apply (simp add: word_sless_alt sint_word_ariths)
  apply (rule signed_take_bit_int_eq_self)
  using sint_ge[of n] sint_lt[of n] by simp_all

lemma sint_pred2: "1 <s (n :: go_int) \<Longrightarrow> sint (n - 2) = sint n - 2"
  apply (simp add: word_sless_alt sint_word_ariths)
  apply (rule signed_take_bit_int_eq_self)
  using sint_ge[of n] sint_lt[of n] by simp_all

function AlternativeFibonacciRecursive :: "go_int \<Rightarrow> go_int" where
  "AlternativeFibonacciRecursive n =
     (if n \<le>s 1 then n
      else AlternativeFibonacciRecursive (n - 1) + AlternativeFibonacciRecursive (n - 2))"
  by pat_completeness auto
termination
proof (relation "measure (\<lambda>n. nat (sint n))")
  show "wf (measure (\<lambda>n::go_int. nat (sint n)))" by simp
next
  fix n :: go_int
  assume "\<not> n \<le>s 1"
  then have "1 <s n" by (simp add: signed.not_le)
  then show "(n - 1, n) \<in> measure (\<lambda>n. nat (sint n))"
    using sint_pred[of n] by (simp add: word_sless_alt)
next
  fix n :: go_int
  assume "\<not> n \<le>s 1"
  then have "1 <s n" by (simp add: signed.not_le)
  then show "(n - 2, n) \<in> measure (\<lambda>n. nat (sint n))"
    using sint_pred2[of n] by (simp add: word_sless_alt)
qed

declare AlternativeFibonacciRecursive.simps [simp del]

text \<open>
  The sequence the comment of \<^verbatim>\<open>Fibonacci\<close> names, over the mathematical integers:
  \<open>0, 1, 1, 2, 3, 5, 8, 13, 21, \<dots>\<close>
\<close>

fun Fibonacci_spec :: "nat \<Rightarrow> int" where
  "Fibonacci_spec 0 = 0"
| "Fibonacci_spec (Suc 0) = 1"
| "Fibonacci_spec (Suc (Suc k)) = Fibonacci_spec (Suc k) + Fibonacci_spec k"

text \<open>The same sequence by pairs, to compute it in linear time.\<close>

fun Fibonacci_spec_pair :: "nat \<Rightarrow> int \<times> int" where
  "Fibonacci_spec_pair 0 = (0, 1)"
| "Fibonacci_spec_pair (Suc k) = (case Fibonacci_spec_pair k of (a, b) \<Rightarrow> (b, a + b))"

text \<open>The sequence wrapped into \<^verbatim>\<open>int\<close>, as the additions of the code compute it.\<close>

definition fibw :: "nat \<Rightarrow> go_int" where
  "fibw k = word_of_int (Fibonacci_spec k)"

text \<open>
  \<^verbatim>\<open>MergeMaps\<close>. A Go map is a reference to a mutable object, so the maps live in
  a heap: a list of map objects, a reference being an index into it, or \<open>None\<close>
  for the \<^verbatim>\<open>nil\<close> map. A map object is its list of entries, with distinct keys, in
  the order a \<^verbatim>\<open>range\<close> loop happens to visit them (Go leaves that order open, and
  every order is some list). \<^verbatim>\<open>make\<close> allocates a new object at the end of the heap;
  \<^verbatim>\<open>result[k] = v\<close> updates the object the reference points to. The parameters
  \<^verbatim>\<open>map1\<close> and \<^verbatim>\<open>map2\<close> are written \<open>map_1\<close> and \<open>map_2\<close>.
\<close>

type_synonym go_map = "(string \<times> go_int) list"
type_synonym heap = "go_map list"
type_synonym map_ref = "nat option"

text \<open>A reference a caller can hold: \<^verbatim>\<open>nil\<close>, or an allocated map with distinct keys.\<close>

definition valid_ref :: "heap \<Rightarrow> map_ref \<Rightarrow> bool" where
  "valid_ref h r = (case r of None \<Rightarrow> True | Some a \<Rightarrow> a < length h \<and> distinct (map fst (h ! a)))"

definition entries :: "heap \<Rightarrow> map_ref \<Rightarrow> (string \<times> go_int) list" where
  "entries h r = (case r of None \<Rightarrow> [] | Some a \<Rightarrow> h ! a)"

text \<open>\<^verbatim>\<open>v, ok := m[k]\<close>: reading a map, also a \<^verbatim>\<open>nil\<close> one.\<close>

definition map_index :: "heap \<Rightarrow> map_ref \<Rightarrow> string \<Rightarrow> go_int option" where
  "map_index h r k = map_of (entries h r) k"

definition make_map :: "heap \<Rightarrow> nat \<times> heap" where
  "make_map h = (length h, h @ [[]])"

definition map_assign :: "nat \<Rightarrow> string \<Rightarrow> go_int \<Rightarrow> heap \<Rightarrow> heap" where
  "map_assign a k v h = h[a := AList.update k v (h ! a)]"

text \<open>\<^verbatim>\<open>for k, v := range m { result[k] = v }\<close> over the entries of \<^verbatim>\<open>m\<close>.\<close>

fun copy_entries :: "nat \<Rightarrow> (string \<times> go_int) list \<Rightarrow> heap \<Rightarrow> heap" where
  "copy_entries result [] h = h"
| "copy_entries result ((k, v) # kvs) h = copy_entries result kvs (map_assign result k v h)"

definition MergeMaps :: "map_ref \<Rightarrow> map_ref \<Rightarrow> heap \<Rightarrow> map_ref \<times> heap" where
  "MergeMaps map_1 map_2 h =
     (let (result, h0) = make_map h;
          h1 = copy_entries result (entries h0 map_1) h0;
          h2 = copy_entries result (entries h1 map_2) h1
      in (Some result, h2))"

text \<open>The maps of \<^verbatim>\<open>DemonstrateSolutions\<close>: \<^verbatim>\<open>{"a": 1, "b": 2}\<close> and \<^verbatim>\<open>{"b": 3, "c": 4}\<close>.\<close>

definition demo_heap :: heap where
  "demo_heap = [[(''a'', 1), (''b'', 2)], [(''b'', 3), (''c'', 4)]]"

section \<open>Values of the types-interfaces module\<close>

text \<open>
  A \<^verbatim>\<open>float64\<close> is a finite number, an infinity or NaN. The operations follow
  IEEE 754 on the infinities and NaN (NaN is contagious, and every comparison with
  it is false); on finite numbers they are exact, so rounding, overflow to an
  infinity and the sign of zero are outside the model. The concrete inputs below
  are numbers that \<^verbatim>\<open>float64\<close> holds exactly, with exact results.
\<close>

datatype float64 = Finite real | PosInf | NegInf | NaN

definition fsgn :: "float64 \<Rightarrow> real" where
  "fsgn x = (case x of Finite r \<Rightarrow> sgn r | PosInf \<Rightarrow> 1 | NegInf \<Rightarrow> - 1 | NaN \<Rightarrow> 0)"

definition fmul :: "float64 \<Rightarrow> float64 \<Rightarrow> float64" where
  "fmul x y =
     (if x = NaN \<or> y = NaN then NaN
      else (case (x, y) of
              (Finite a, Finite b) \<Rightarrow> Finite (a * b)
            | _ \<Rightarrow> if fsgn x * fsgn y = 0 then NaN
                   else if 0 < fsgn x * fsgn y then PosInf
                   else NegInf))"

fun flt :: "float64 \<Rightarrow> float64 \<Rightarrow> bool" where
  "flt NaN y = False"
| "flt x NaN = False"
| "flt (Finite a) (Finite b) = (a < b)"
| "flt x PosInf = (x \<noteq> PosInf)"
| "flt NegInf y = (y \<noteq> NegInf)"
| "flt x y = False"

definition fadd :: "float64 \<Rightarrow> float64 \<Rightarrow> float64" where
  "fadd x y =
     (if x = NaN \<or> y = NaN then NaN
      else (case (x, y) of
              (Finite a, Finite b) \<Rightarrow> Finite (a + b)
            | (Finite a, _) \<Rightarrow> y
            | (_, Finite b) \<Rightarrow> x
            | _ \<Rightarrow> if x = y then x else NaN))"

text \<open>
  A value of type \<^verbatim>\<open>interface{}\<close> is \<^verbatim>\<open>nil\<close> or a value with its dynamic type.
  \<open>VOther\<close> stands for a value of any dynamic type besides \<^verbatim>\<open>int\<close>, \<^verbatim>\<open>float64\<close>,
  \<^verbatim>\<open>string\<close> and \<^verbatim>\<open>bool\<close>, and carries the name of that type.
\<close>

datatype Value =
    VNil
  | VInt go_int
  | VFloat64 float64
  | VString string
  | VBool bool
  | VOther string

text \<open>
  The run-time panics of the code: a failed type assertion, a method call or a
  field read through \<^verbatim>\<open>nil\<close>, and an assignment to an entry of a \<^verbatim>\<open>nil\<close> map.
\<close>

datatype panic =
    InterfaceConversion Value string
  | NilPointerDereference
  | AssignmentToNilMap

text \<open>
  The type assertion \<^verbatim>\<open>v.(int)\<close> panics when the dynamic type is not \<^verbatim>\<open>int\<close>; the
  forms \<^verbatim>\<open>value, ok := v.(int)\<close> and \<^verbatim>\<open>str, ok := v.(string)\<close> never panic and
  give the zero value with \<^verbatim>\<open>ok = false\<close>.
\<close>

definition assert_int :: "Value \<Rightarrow> panic + go_int" where
  "assert_int v = (case v of VInt i \<Rightarrow> Inr i | _ \<Rightarrow> Inl (InterfaceConversion v ''int''))"

definition assert_int_ok :: "Value \<Rightarrow> go_int \<times> bool" where
  "assert_int_ok v = (case v of VInt i \<Rightarrow> (i, True) | _ \<Rightarrow> (0, False))"

definition assert_string_ok :: "Value \<Rightarrow> string \<times> bool" where
  "assert_string_ok v = (case v of VString s \<Rightarrow> (s, True) | _ \<Rightarrow> ('''', False))"

text \<open>
  The conversion \<^verbatim>\<open>int(val)\<close> of a \<^verbatim>\<open>float64\<close> discards the fraction (it truncates
  towards zero). When the truncated value does not fit \<^verbatim>\<open>int\<close>, and for NaN and
  the infinities, Go leaves the result to the implementation: that choice is the
  parameter \<open>unrepresentable\<close>. \<open>amd64_unrepresentable\<close> is the choice of the amd64
  compiler, the smallest \<^verbatim>\<open>int\<close>.
\<close>

definition truncate_real :: "real \<Rightarrow> int" where
  "truncate_real r = (if 0 \<le> r then \<lfloor>r\<rfloor> else \<lceil>r\<rceil>)"

definition float64_to_int :: "(float64 \<Rightarrow> go_int) \<Rightarrow> float64 \<Rightarrow> go_int" where
  "float64_to_int unrepresentable x =
     (case x of
        Finite r \<Rightarrow>
          if - (2 ^ 63) \<le> truncate_real r \<and> truncate_real r < 2 ^ 63
          then word_of_int (truncate_real r)
          else unrepresentable x
      | _ \<Rightarrow> unrepresentable x)"

definition amd64_unrepresentable :: "float64 \<Rightarrow> go_int" where
  "amd64_unrepresentable x = - 9223372036854775808"











section \<open>modules/02-types-interfaces/exercises/exercise1\_shapes.go\<close>

text \<open>
  A \<^verbatim>\<open>Shape\<close> is an interface value: \<^verbatim>\<open>nil\<close>, or a value of some type with the three
  methods \<^verbatim>\<open>Area\<close>, \<^verbatim>\<open>Perimeter\<close> and \<^verbatim>\<open>Name\<close>. The functions below only call these
  methods, so the value is given by what the calls do: return a result or panic.
  A call on the \<^verbatim>\<open>nil\<close> interface panics. This covers every implementor: \<^verbatim>\<open>Square\<close>
  and \<^verbatim>\<open>Triangle\<close> (value receivers, which always return), a pointer to an
  \<^verbatim>\<open>Ellipse\<close> (when the pointer is \<^verbatim>\<open>nil\<close>, \<^verbatim>\<open>Name\<close> returns and \<^verbatim>\<open>Area\<close> and
  \<^verbatim>\<open>Perimeter\<close> panic), and any type a caller adds. In the exercise file \<^verbatim>\<open>Circle\<close>
  has no \<^verbatim>\<open>Name\<close> method and is not a \<^verbatim>\<open>Shape\<close>.
\<close>

record Shape_methods =
  Area :: "panic + float64"
  Perimeter :: "panic + float64"
  Name :: "panic + string"

datatype Shape = NilShape | Dyn Shape_methods

definition call_Area :: "Shape \<Rightarrow> panic + float64" where
  "call_Area s = (case s of NilShape \<Rightarrow> Inl NilPointerDereference | Dyn m \<Rightarrow> Area m)"



text \<open>
  \<^verbatim>\<open>Square\<close> and \<^verbatim>\<open>Triangle\<close> with the methods of the exercise file, planted defects
  included, and the \<^verbatim>\<open>Shape\<close> values they give.
\<close>

record Square =
  Side :: float64

definition Square_Area :: "Square \<Rightarrow> float64" where
  "Square_Area s = fmul (Side s) (Side s)"

definition Square_Perimeter :: "Square \<Rightarrow> float64" where
  "Square_Perimeter s = fmul (Finite 2) (Side s)"

definition Square_Name :: "Square \<Rightarrow> string" where
  "Square_Name s = ''Square''"

definition Square_Shape :: "Square \<Rightarrow> Shape" where
  "Square_Shape s =
     Dyn \<lparr>Area = Inr (Square_Area s), Perimeter = Inr (Square_Perimeter s), Name = Inr (Square_Name s)\<rparr>"

record Triangle =
  Base :: float64
  Height :: float64

definition Triangle_Area :: "Triangle \<Rightarrow> float64" where
  "Triangle_Area t = fmul (fmul (Finite 0.5) (Base t)) (Height t)"

definition Triangle_Perimeter :: "Triangle \<Rightarrow> float64" where
  "Triangle_Perimeter t = fadd (Base t) (Height t)"

definition Triangle_Name :: "Triangle \<Rightarrow> string" where
  "Triangle_Name t = ''Triangle''"

definition Triangle_Shape :: "Triangle \<Rightarrow> Shape" where
  "Triangle_Shape t =
     Dyn \<lparr>Area = Inr (Triangle_Area t), Perimeter = Inr (Triangle_Perimeter t),
          Name = Inr (Triangle_Name t)\<rparr>"


text \<open>\<^verbatim>\<open>CompareShapes\<close> calls \<^verbatim>\<open>s1.Area()\<close>, then \<^verbatim>\<open>s2.Area()\<close>.\<close>

definition CompareShapes :: "Shape \<Rightarrow> Shape \<Rightarrow> panic + go_int" where
  "CompareShapes s1 s2 =
     (case call_Area s1 of
        Inl e \<Rightarrow> Inl e
      | Inr area1 \<Rightarrow>
          (case call_Area s2 of
             Inl e \<Rightarrow> Inl e
           | Inr area2 \<Rightarrow>
               if flt area1 area2 then Inr 1
               else if flt area2 area1 then Inr (- 1)
               else Inr 0))"

section \<open>modules/02-types-interfaces/exercises/exercise2\_type\_assertions.go\<close>


definition exercises_GetIntValue :: "Value \<Rightarrow> panic + go_int" where
  "exercises_GetIntValue v =
     (case assert_int v of
        Inl p \<Rightarrow> Inl p
      | Inr value \<Rightarrow> Inr value)"

section \<open>modules/02-types-interfaces/solutions/exercise2\_type\_assertions.go\<close>

definition solutions_GetIntValue :: "Value \<Rightarrow> panic + go_int" where
  "solutions_GetIntValue v =
     (let (value, ok) = assert_int_ok v
      in if ok then Inr value else Inr 0)"

text \<open>
  \<^verbatim>\<open>ConvertToInt\<close> calls \<^verbatim>\<open>strconv.Atoi\<close> of the standard library, which returns a
  value and an error; it is a parameter here, and the properties hold for every
  behaviour of it. The errors built by \<^verbatim>\<open>fmt.Errorf\<close> are values that keep what the
  message is made from.
\<close>

datatype NumError = ErrSyntax | ErrRange

datatype go_error =
    CannotConvertString string NumError
  | CannotConvertType Value

definition ConvertToInt ::
  "(string \<Rightarrow> go_int \<times> NumError option) \<Rightarrow> (float64 \<Rightarrow> go_int) \<Rightarrow> Value \<Rightarrow>
   go_int \<times> go_error option" where
  "ConvertToInt atoi unrepresentable v =
     (case v of
        VInt val \<Rightarrow> (val, None)
      | VFloat64 val \<Rightarrow> (float64_to_int unrepresentable val, None)
      | VString val \<Rightarrow>
          (case atoi val of
             (result, Some err) \<Rightarrow> (0, Some (CannotConvertString val err))
           | (result, None) \<Rightarrow> (result, None))
      | VBool val \<Rightarrow> (if val then (1, None) else (0, None))
      | _ \<Rightarrow> (0, Some (CannotConvertType v)))"

text \<open>
  \<^verbatim>\<open>strconv.Atoi\<close> as its documentation describes it, for the examples: an optional
  sign, then decimal digits only and at least one (a syntax error otherwise); a
  value outside \<^verbatim>\<open>int\<close> is a range error, returned with the nearest \<^verbatim>\<open>int\<close>.
\<close>

definition digit_value :: "char \<Rightarrow> nat option" where
  "digit_value c =
     (if 48 \<le> (of_char c :: nat) \<and> (of_char c :: nat) \<le> 57 then Some (of_char c - 48) else None)"

fun parse_digits :: "string \<Rightarrow> nat \<Rightarrow> nat option" where
  "parse_digits [] acc = Some acc"
| "parse_digits (c # cs) acc =
     (case digit_value c of
        None \<Rightarrow> None
      | Some d \<Rightarrow> parse_digits cs (10 * acc + d))"

definition Atoi :: "string \<Rightarrow> go_int \<times> NumError option" where
  "Atoi s =
     (let (neg, ds) =
            (case s of
               [] \<Rightarrow> (False, [])
             | c # cs \<Rightarrow>
                 if c = CHR ''-'' then (True, cs)
                 else if c = CHR ''+'' then (False, cs)
                 else (False, s))
      in if ds = [] then (0, Some ErrSyntax)
         else (case parse_digits ds 0 of
                 None \<Rightarrow> (0, Some ErrSyntax)
               | Some n \<Rightarrow>
                   if neg then
                     (if 2 ^ 63 < n then (word_of_int (- (2 ^ 63)), Some ErrRange)
                      else (word_of_int (- int n), None))
                   else
                     (if 2 ^ 63 \<le> n then (word_of_int (2 ^ 63 - 1), Some ErrRange)
                      else (word_of_nat n, None))))"

text \<open>
  \<^verbatim>\<open>TypeSafeMap\<close>. The field \<^verbatim>\<open>data\<close> is a Go map, \<open>None\<close> when it is \<^verbatim>\<open>nil\<close> as in
  the zero value \<^verbatim>\<open>TypeSafeMap{}\<close>: reading a \<^verbatim>\<open>nil\<close> map finds no key, assigning
  to one panics. The methods have pointer receivers: the receiver is \<open>None\<close> for
  a \<^verbatim>\<open>nil\<close> pointer, whose field cannot be read, and \<^verbatim>\<open>Set\<close> returns the receiver
  with the map updated.
\<close>

record TypeSafeMap =
  data :: "(string \<rightharpoonup> Value) option"

definition NewTypeSafeMap :: "TypeSafeMap option" where
  "NewTypeSafeMap = Some \<lparr>data = Some Map.empty\<rparr>"

definition TypeSafeMap_Set ::
  "TypeSafeMap option \<Rightarrow> string \<Rightarrow> Value \<Rightarrow> panic + TypeSafeMap option" where
  "TypeSafeMap_Set m key value =
     (case m of
        None \<Rightarrow> Inl NilPointerDereference
      | Some t \<Rightarrow>
          (case data t of
             None \<Rightarrow> Inl AssignmentToNilMap
           | Some d \<Rightarrow> Inr (Some (t\<lparr>data := Some (d(key \<mapsto> value))\<rparr>))))"

definition map_read :: "(string \<rightharpoonup> Value) option \<Rightarrow> string \<Rightarrow> Value \<times> bool" where
  "map_read d key =
     (case d of
        None \<Rightarrow> (VNil, False)
      | Some f \<Rightarrow> (case f key of None \<Rightarrow> (VNil, False) | Some v \<Rightarrow> (v, True)))"

definition TypeSafeMap_GetString :: "TypeSafeMap option \<Rightarrow> string \<Rightarrow> panic + string" where
  "TypeSafeMap_GetString m key =
     (case m of
        None \<Rightarrow> Inl NilPointerDereference
      | Some t \<Rightarrow>
          (let (value, exists) = map_read (data t) key
           in if \<not> exists then Inr ''''
              else (let (str, ok) = assert_string_ok value in if ok then Inr str else Inr '''')))"

definition TypeSafeMap_GetInt :: "TypeSafeMap option \<Rightarrow> string \<Rightarrow> panic + go_int" where
  "TypeSafeMap_GetInt m key =
     (case m of
        None \<Rightarrow> Inl NilPointerDereference
      | Some t \<Rightarrow>
          (let (value, exists) = map_read (data t) key
           in if \<not> exists then Inr 0
              else (let (num, ok) = assert_int_ok value in if ok then Inr num else Inr 0)))"

definition TypeSafeMap_Contains :: "TypeSafeMap option \<Rightarrow> string \<Rightarrow> panic + bool" where
  "TypeSafeMap_Contains m key =
     (case m of
        None \<Rightarrow> Inl NilPointerDereference
      | Some t \<Rightarrow> (let (value, exists) = map_read (data t) key in Inr exists))"

section \<open>modules/02-types-interfaces/solutions/exercise3\_composition.go\<close>




section \<open>Properties of the basics solutions\<close>

subsection \<open>CalculateSum\<close>

text \<open>
  C6 (as amended). \<^verbatim>\<open>CalculateSum(3, 5)\<close> is 8, and for all \<^verbatim>\<open>int\<close> values the result
  is the sum wrapped to 64 bits in two's complement; it is the mathematical sum
  whenever that sum lies in the range of \<^verbatim>\<open>int\<close>.
\<close>

theorem CalculateSum_wraps:
  "CalculateSum 3 5 = 8 \<and>
   sint (CalculateSum a b) = signed_take_bit 63 (sint a + sint b) \<and>
   (- (2 ^ 63) \<le> sint a + sint b \<and> sint a + sint b < 2 ^ 63 \<longrightarrow>
      sint (CalculateSum a b) = sint a + sint b)"
  by (simp add: CalculateSum_def sint_word_ariths signed_take_bit_int_eq_self)

theorem CalculateSum_wraps_witness:
  "- (2 ^ 63) \<le> sint (3 :: go_int) + sint (5 :: go_int) \<and>
   sint (3 :: go_int) + sint (5 :: go_int) < 2 ^ 63 \<and>
   sint (CalculateSum 3 5) = 8"
  using CalculateSum_wraps [of 3 5] by simp

text \<open>
  The claim as stated fails where the sum leaves the range: the largest \<^verbatim>\<open>int\<close>
  plus one is the smallest \<^verbatim>\<open>int\<close>.
\<close>

theorem CalculateSum_overflow_counterexample:
  "sint (CalculateSum go_max_int 1) = - 9223372036854775808 \<and>
   sint go_max_int + sint (1 :: go_int) = 9223372036854775808"
  by (simp add: CalculateSum_def)

subsection \<open>GetGrade\<close>

text \<open>
  C5. \<^verbatim>\<open>GetGrade(85)\<close> is \<^verbatim>\<open>"B"\<close>, and for every score the grade is A from 90 up,
  B from 80 to 89, C from 70 to 79, D from 60 to 69 and F below 60.
\<close>

theorem GetGrade_bands:
  "GetGrade 85 = ''B'' \<and>
   GetGrade score =
     (if 90 \<le> sint score then ''A''
      else if 80 \<le> sint score \<and> sint score < 90 then ''B''
      else if 70 \<le> sint score \<and> sint score < 80 then ''C''
      else if 60 \<le> sint score \<and> sint score < 70 then ''D''
      else ''F'')"
  by (simp add: GetGrade_def word_sle_eq)

subsection \<open>FindMax\<close>

lemma FindMax_loop_mem: "FindMax_loop ns mx = mx \<or> FindMax_loop ns mx \<in> set ns"
  by (induction ns arbitrary: mx) auto

lemma FindMax_loop_ge_acc: "mx \<le>s FindMax_loop ns mx"
proof (induction ns arbitrary: mx)
  case Nil
  show ?case by simp
next
  case (Cons n ns)
  have "mx \<le>s (if mx <s n then n else mx)" by (simp add: signed.less_imp_le)
  also have "(if mx <s n then n else mx) \<le>s FindMax_loop ns (if mx <s n then n else mx)"
    by (rule Cons.IH)
  finally show ?case by simp
qed

lemma FindMax_loop_upper: "n \<in> set ns \<Longrightarrow> n \<le>s FindMax_loop ns mx"
proof (induction ns arbitrary: mx)
  case Nil
  then show ?case by simp
next
  case (Cons a ns)
  show ?case
  proof (cases "n = a")
    case True
    have "a \<le>s (if mx <s a then a else mx)" by (simp add: signed.not_less)
    also have "\<dots> \<le>s FindMax_loop ns (if mx <s a then a else mx)"
      by (rule FindMax_loop_ge_acc)
    finally show ?thesis using True by simp
  next
    case False
    with Cons.prems have "n \<in> set ns" by simp
    then show ?thesis using Cons.IH by simp
  qed
qed

text \<open>
  C10. \<^verbatim>\<open>FindMax\<close> answers 0 for the empty slice, which is also its answer for the
  slice holding only 0; for a non-empty slice, negative values included, the answer
  is an element of the slice that no element exceeds.
\<close>

theorem FindMax_sentinel_and_maximum:
  "FindMax [] = 0 \<and> FindMax [0] = FindMax [] \<and>
   (numbers \<noteq> [] \<longrightarrow>
      FindMax numbers \<in> set numbers \<and> (\<forall>n \<in> set numbers. n \<le>s FindMax numbers))"
proof -
  have e: "FindMax [] = 0" by (simp add: FindMax_def)
  have z: "FindMax [0] = FindMax []" by (simp add: FindMax_def)
  have m: "FindMax numbers \<in> set numbers" if "numbers \<noteq> []"
  proof -
    from that obtain x xs where eq: "numbers = x # xs" by (cases numbers) auto
    have "FindMax_loop numbers x = x \<or> FindMax_loop numbers x \<in> set numbers"
      by (rule FindMax_loop_mem)
    then show ?thesis using eq by (auto simp: FindMax_def)
  qed
  have u: "\<forall>n \<in> set numbers. n \<le>s FindMax numbers" if "numbers \<noteq> []"
    using that by (auto simp: FindMax_def FindMax_loop_upper)
  show ?thesis using e z m u by blast
qed

theorem FindMax_sentinel_and_maximum_witness:
  "[-5, -2, -10] \<noteq> ([] :: go_int list) \<and> FindMax [-5, -2, -10] = -2 \<and>
   FindMax [-5, -2, -10] \<in> set [-5, -2, -10] \<and>
   -5 \<le>s FindMax [-5, -2, -10] \<and> -10 \<le>s FindMax [-5, -2, -10]"
  using FindMax_sentinel_and_maximum [of "[-5, -2, -10]"]
  by (simp add: FindMax_def)

subsection \<open>Fibonacci\<close>

lemma Fibonacci_loop_Some_not_max:
  assumes "Fibonacci_loop n i prev cur = Some y"
  shows "n \<noteq> go_max_int"
proof (rule Fibonacci_loop.raw_induct [where P = "\<lambda>n i p c y. n \<noteq> go_max_int", OF _ assms])
  fix loop :: "go_int \<Rightarrow> go_int \<Rightarrow> go_int \<Rightarrow> go_int \<Rightarrow> go_int option"
  fix n i p c y :: go_int
  assume IH: "\<And>n i p c y. loop n i p c = Some y \<Longrightarrow> n \<noteq> go_max_int"
  assume eq: "(if i \<le>s n then loop n (i + 1) c (p + c) else Some c) = Some y"
  show "n \<noteq> go_max_int"
  proof
    assume m: "n = go_max_int"
    have "sint i \<le> 9223372036854775807" using sint_lt [of i] by simp
    then have "i \<le>s n" using m by (simp add: word_sle_eq)
    with eq have "loop n (i + 1) c (p + c) = Some y" by simp
    from IH [OF this] m show False by simp
  qed
qed

lemma Fibonacci_loop_max_diverges: "Fibonacci_loop go_max_int i prev cur = None"
  using Fibonacci_loop_Some_not_max [of go_max_int i prev cur]
  by (cases "Fibonacci_loop go_max_int i prev cur") auto

lemma Fibonacci_max_diverges: "Fibonacci go_max_int = None"
  by (simp add: Fibonacci_def Fibonacci_loop_max_diverges)

lemma fibw_step: "fibw (Suc (Suc k)) = fibw k + fibw (Suc k)"
  by (simp add: fibw_def)

lemma sint_of_nat_small: "k < 2 ^ 63 \<Longrightarrow> sint (word_of_nat k :: go_int) = int k"
  by (simp add: signed_of_nat signed_take_bit_int_eq_self)

lemma Fibonacci_loop_fibw:
  "n < 2 ^ 63 - 1 \<Longrightarrow> 1 \<le> j \<Longrightarrow> j \<le> n \<Longrightarrow> d = n - j \<Longrightarrow>
   Fibonacci_loop (word_of_nat n) (word_of_nat (Suc j)) (fibw (j - 1)) (fibw j) = Some (fibw n)"
proof (induction d arbitrary: j)
  case 0
  then have jn: "j = n" by simp
  have "sint (word_of_nat (Suc n) :: go_int) = int (Suc n)"
    using 0 by (intro sint_of_nat_small) simp
  moreover have "sint (word_of_nat n :: go_int) = int n"
    using 0 by (intro sint_of_nat_small) simp
  ultimately have "\<not> (word_of_nat (Suc n) :: go_int) \<le>s word_of_nat n"
    by (simp add: word_sle_eq)
  then show ?case unfolding jn
    by (subst Fibonacci_loop.simps) simp
next
  case (Suc d)
  then have lt: "j < n" and d: "d = n - Suc j" by simp_all
  have "sint (word_of_nat (Suc j) :: go_int) = int (Suc j)"
    using Suc.prems by (intro sint_of_nat_small) simp
  moreover have "sint (word_of_nat n :: go_int) = int n"
    using Suc.prems by (intro sint_of_nat_small) simp
  ultimately have le: "(word_of_nat (Suc j) :: go_int) \<le>s word_of_nat n"
    using lt by (simp add: word_sle_eq)
  have step: "fibw (j - 1) + fibw j = fibw (Suc j)"
  proof -
    from Suc.prems obtain k where "j = Suc k" by (cases j) auto
    then show ?thesis by (simp add: fibw_step)
  qed
  have "Fibonacci_loop (word_of_nat n) (word_of_nat (Suc (Suc j))) (fibw (Suc j - 1)) (fibw (Suc j)) = Some (fibw n)"
    using Suc.prems lt d by (intro Suc.IH) simp_all
  then show ?case
    using le step by (subst Fibonacci_loop.simps) (simp add: add.commute)
qed

lemma AlternativeFibonacciRecursive_fibw:
  "k < 2 ^ 63 \<Longrightarrow> AlternativeFibonacciRecursive (word_of_nat k) = fibw k"
proof (induction k rule: Fibonacci_spec.induct)
  case 1
  show ?case by (subst AlternativeFibonacciRecursive.simps) (simp add: fibw_def word_sle_eq)
next
  case 2
  show ?case by (subst AlternativeFibonacciRecursive.simps) (simp add: fibw_def word_sle_eq)
next
  case (3 k)
  let ?n = "word_of_nat (Suc (Suc k)) :: go_int"
  have s: "sint ?n = int (Suc (Suc k))"
    using 3(3) by (rule sint_of_nat_small)
  then have big: "\<not> ?n \<le>s 1" by (simp add: word_sle_eq)
  have p1: "?n - 1 = word_of_nat (Suc k)" by simp
  have p2: "?n - 2 = word_of_nat k" by simp
  have "AlternativeFibonacciRecursive ?n =
        AlternativeFibonacciRecursive (?n - 1) + AlternativeFibonacciRecursive (?n - 2)"
    using big by (subst AlternativeFibonacciRecursive.simps) simp
  also have "\<dots> = fibw (Suc k) + fibw k"
    unfolding p1 p2 using 3 by simp
  finally show ?case by (simp add: fibw_step add.commute)
qed

lemma Fibonacci_spec_pair_eq:
  "Fibonacci_spec_pair k = (Fibonacci_spec k, Fibonacci_spec (Suc k))"
  by (induction k) (simp_all add: add.commute)

lemma Fibonacci_spec_92: "Fibonacci_spec 92 = 7540113804746346429"
proof -
  have "Fibonacci_spec 92 = fst (Fibonacci_spec_pair 92)"
    by (simp only: Fibonacci_spec_pair_eq fst_conv)
  also have "\<dots> = 7540113804746346429"
    by code_simp
  finally show ?thesis .
qed

lemma Fibonacci_spec_nonneg: "0 \<le> Fibonacci_spec k"
  by (induction k rule: Fibonacci_spec.induct) simp_all

lemma Fibonacci_spec_mono_Suc: "Fibonacci_spec k \<le> Fibonacci_spec (Suc k)"
  using Fibonacci_spec_nonneg [of "k - 1"] by (cases k) simp_all

lemma Fibonacci_spec_mono: "j \<le> k \<Longrightarrow> Fibonacci_spec j \<le> Fibonacci_spec k"
  by (rule lift_Suc_mono_le [of Fibonacci_spec]) (simp_all add: Fibonacci_spec_mono_Suc)

lemma sint_fibw_small: "k \<le> 92 \<Longrightarrow> sint (fibw k) = Fibonacci_spec k"
proof -
  assume "k \<le> 92"
  then have "Fibonacci_spec k \<le> Fibonacci_spec 92" by (rule Fibonacci_spec_mono)
  then have "Fibonacci_spec k < 2 ^ 63" by (simp add: Fibonacci_spec_92)
  moreover have "- (2 ^ 63) \<le> Fibonacci_spec k"
    using Fibonacci_spec_nonneg [of k] by simp
  ultimately show ?thesis unfolding fibw_def
    by (simp add: signed_of_int signed_take_bit_int_eq_self)
qed

lemma go_int_of_nat_sint: "0 \<le>s (n :: go_int) \<Longrightarrow> word_of_nat (nat (sint n)) = n"
  by (simp add: word_sle_eq)

text \<open>
  C8 (as amended). For every \<open>n\<close> from 0 up to, but not including, the largest
  \<^verbatim>\<open>int\<close>, \<^verbatim>\<open>Fibonacci(n)\<close> returns, and returns what
  \<^verbatim>\<open>AlternativeFibonacciRecursive(n)\<close> returns (both add with wrap-around); up to
  \<open>n = 92\<close> that value is the \<open>n\<close>-th number of the sequence
  \<open>0, 1, 1, 2, 3, 5, 8, 13, 21, \<dots>\<close>
\<close>

theorem Fibonacci_agrees:
  assumes "0 \<le>s n" and "n \<noteq> go_max_int"
  shows "Fibonacci n = Some (AlternativeFibonacciRecursive n) \<and>
         (sint n \<le> 92 \<longrightarrow>
            sint (AlternativeFibonacciRecursive n) = Fibonacci_spec (nat (sint n))) \<and>
         map Fibonacci [0, 1, 2, 3, 4, 5, 6, 7, 8] = map Some [0, 1, 1, 2, 3, 5, 8, 13, 21] \<and>
         map AlternativeFibonacciRecursive [0, 1, 2, 3, 4, 5, 6, 7, 8] = [0, 1, 1, 2, 3, 5, 8, 13, 21]"
proof -
  have first: "map Fibonacci [0, 1, 2, 3, 4, 5, 6, 7, 8] = map Some [0, 1, 1, 2, 3, 5, 8, 13, 21]"
    by (simp add: Fibonacci_def Fibonacci_loop.simps)
  have first_rec:
    "map AlternativeFibonacciRecursive [0, 1, 2, 3, 4, 5, 6, 7, 8] = [0, 1, 1, 2, 3, 5, 8, 13, 21]"
    by (simp add: AlternativeFibonacciRecursive.simps word_sle_eq)
  define k where "k = nat (sint n)"
  have n: "n = word_of_nat k" using assms(1) by (simp add: k_def go_int_of_nat_sint)
  have "sint n < 2 ^ 63" using sint_lt [of n] by simp
  moreover have "sint n \<noteq> 9223372036854775807"
  proof
    assume "sint n = 9223372036854775807"
    then have "word_of_int (sint n) = (word_of_int 9223372036854775807 :: go_int)" by simp
    then show False using assms(2) by simp
  qed
  ultimately have k: "k < 2 ^ 63 - 1" using assms(1) by (simp add: k_def word_sle_eq)
  have rec: "AlternativeFibonacciRecursive n = fibw k"
    unfolding n using k by (intro AlternativeFibonacciRecursive_fibw) simp
  have it: "Fibonacci n = Some (fibw k)"
  proof (cases "k \<le> 1")
    case True
    then consider "k = 0" | "k = 1" by linarith
    then show ?thesis
      by cases (simp_all add: n Fibonacci_def fibw_def)
  next
    case False
    then have k2: "2 \<le> k" by simp
    have "sint n = int k" unfolding n using k by (intro sint_of_nat_small) simp
    with k2 have n0: "n \<noteq> 0" "n \<noteq> 1" by auto
    have "Fibonacci_loop (word_of_nat k) (word_of_nat (Suc 1)) (fibw (1 - 1)) (fibw 1) = Some (fibw k)"
      using k k2 by (intro Fibonacci_loop_fibw [where d = "k - 1"]) simp_all
    then show ?thesis using n0 by (simp add: Fibonacci_def n [symmetric] fibw_def)
  qed
  have seq: "sint n \<le> 92 \<longrightarrow>
      sint (AlternativeFibonacciRecursive n) = Fibonacci_spec (nat (sint n))"
    using rec sint_fibw_small [of k] by (simp add: k_def)
  show ?thesis using rec it seq first first_rec by (simp only: simp_thms)
qed

theorem Fibonacci_agrees_witness:
  "0 \<le>s (10 :: go_int) \<and> (10 :: go_int) \<noteq> go_max_int \<and> sint (10 :: go_int) \<le> 92 \<and>
   Fibonacci 10 = Some 55 \<and> AlternativeFibonacciRecursive 10 = 55 \<and>
   Fibonacci_spec (nat (sint (10 :: go_int))) = 55"
proof -
  have h1: "0 \<le>s (10 :: go_int)" by (simp add: word_sle_eq)
  have h2: "(10 :: go_int) \<noteq> go_max_int" by simp
  have f: "Fibonacci_spec 10 = 55" by code_simp
  have i: "Fibonacci 10 = Some 55" by (simp add: Fibonacci_def Fibonacci_loop.simps)
  from Fibonacci_agrees [OF h1 h2] show ?thesis using h1 f i by simp
qed

text \<open>
  The claim as stated fails from \<open>n = 93\<close> on, where the additions wrap: the
  result is negative and not the 93rd number of the sequence. At the largest
  \<^verbatim>\<open>int\<close> the loop condition \<^verbatim>\<open>i <= n\<close> never fails, and \<^verbatim>\<open>Fibonacci\<close> does not
  return.
\<close>

theorem Fibonacci_overflow_counterexample:
  "Fibonacci 93 = Some (- 6246583658587674878) \<and>
   Fibonacci_spec 93 = 12200160415121876738 \<and>
   Fibonacci go_max_int = None"
proof -
  have "Fibonacci 93 = Some (- 6246583658587674878)"
    by (simp add: Fibonacci_def Fibonacci_loop.simps)
  moreover have "Fibonacci_spec 93 = 12200160415121876738"
  proof -
    have "Fibonacci_spec 93 = fst (Fibonacci_spec_pair 93)"
      by (simp only: Fibonacci_spec_pair_eq fst_conv)
    also have "\<dots> = 12200160415121876738"
      by code_simp
    finally show ?thesis .
  qed
  ultimately show ?thesis
    by (simp add: Fibonacci_max_diverges)
qed

subsection \<open>MergeMaps\<close>

lemma length_copy_entries: "length (copy_entries r kvs h) = length h"
  by (induction kvs arbitrary: h) (auto simp: map_assign_def)

lemma copy_entries_other: "a \<noteq> r \<Longrightarrow> copy_entries r kvs h ! a = h ! a"
  by (induction kvs arbitrary: h) (auto simp: map_assign_def)

lemma copy_entries_target:
  "r < length h \<Longrightarrow> map_of (copy_entries r kvs h ! r) = map_of (h ! r) ++ map_of (rev kvs)"
proof (induction kvs arbitrary: h)
  case Nil
  show ?case by simp
next
  case (Cons kv kvs)
  obtain k v where kv: "kv = (k, v)" by (cases kv)
  have len: "r < length (map_assign r k v h)"
    using Cons.prems by (simp add: map_assign_def)
  have a: "map_of (map_assign r k v h ! r) = (map_of (h ! r))(k \<mapsto> v)"
    using Cons.prems by (simp add: map_assign_def update_conv')
  have b: "(map_of (h ! r))(k \<mapsto> v) ++ map_of (rev kvs) = map_of (h ! r) ++ map_of (rev (kv # kvs))"
    unfolding kv by (rule ext) (simp add: map_add_def split: option.split)
  have "map_of (copy_entries r (kv # kvs) h ! r)
        = map_of (map_assign r k v h ! r) ++ map_of (rev kvs)"
    unfolding kv using Cons.IH [OF len] by simp
  then show ?case by (simp only: a b)
qed

lemma copy_entries_distinct:
  "r < length h \<Longrightarrow> distinct (map fst (h ! r)) \<Longrightarrow> distinct (map fst (copy_entries r kvs h ! r))"
proof (induction kvs arbitrary: h)
  case Nil
  then show ?case by simp
next
  case (Cons kv kvs)
  obtain k v where kv: "kv = (k, v)" by (cases kv)
  show ?case unfolding kv using Cons.prems
    by (auto intro!: Cons.IH simp: map_assign_def distinct_update)
qed

lemma map_of_rev_distinct: "distinct (map fst kvs) \<Longrightarrow> map_of (rev kvs) = map_of kvs"
  by (rule map_of_inject_set [THEN iffD2]) (simp_all add: distinct_rev rev_map [symmetric])

lemma entries_distinct: "valid_ref h r \<Longrightarrow> distinct (map fst (entries h r))"
  by (cases r) (simp_all add: valid_ref_def entries_def)

lemma entries_preserved:
  assumes "valid_ref h r" and "\<And>a. a < length h \<Longrightarrow> h' ! a = h ! a"
  shows "entries h' r = entries h r"
  using assms by (cases r) (simp_all add: valid_ref_def entries_def)

text \<open>
  C4. \<^verbatim>\<open>MergeMaps\<close> returns a newly allocated map that holds a key exactly when
  \<^verbatim>\<open>map1\<close> or \<^verbatim>\<open>map2\<close> holds it, with the value of \<^verbatim>\<open>map2\<close> where \<^verbatim>\<open>map2\<close> holds the
  key and the value of \<^verbatim>\<open>map1\<close> otherwise; \<^verbatim>\<open>map1\<close>, \<^verbatim>\<open>map2\<close> and every other map
  allocated before the call are unchanged.
\<close>

theorem MergeMaps_merges:
  assumes v1: "valid_ref h map_1" and v2: "valid_ref h map_2"
    and run: "MergeMaps map_1 map_2 h = (result, h')"
  shows "(k \<in> dom (map_index h' result) \<longleftrightarrow>
            k \<in> dom (map_index h map_1) \<or> k \<in> dom (map_index h map_2)) \<and>
         map_index h' result k =
           (case map_index h map_2 k of Some v \<Rightarrow> Some v | None \<Rightarrow> map_index h map_1 k) \<and>
         entries h' map_1 = entries h map_1 \<and> entries h' map_2 = entries h map_2 \<and>
         take (length h) h' = h \<and> result = Some (length h) \<and> valid_ref h' result"
proof -
  define r where "r = length h"
  define h0 where "h0 = h @ [[]]"
  define h1 where "h1 = copy_entries r (entries h0 map_1) h0"
  have res: "result = Some r" and h': "h' = copy_entries r (entries h1 map_2) h1"
    using run by (simp_all add: MergeMaps_def make_map_def Let_def r_def h0_def h1_def)
  have old0: "h0 ! a = h ! a" if "a < length h" for a
    using that by (simp add: h0_def nth_append)
  have old1: "h1 ! a = h ! a" if "a < length h" for a
    using that old0 by (simp add: h1_def r_def copy_entries_other)
  have old': "h' ! a = h ! a" if "a < length h" for a
    using that old1 by (simp add: h' r_def copy_entries_other)
  have e1: "entries h0 map_1 = entries h map_1"
    using v1 old0 by (rule entries_preserved)
  have e2: "entries h1 map_2 = entries h map_2"
    using v2 old1 by (rule entries_preserved)
  have len0: "r < length h0" by (simp add: r_def h0_def)
  have len1: "r < length h1" using len0 by (simp add: h1_def length_copy_entries)
  have len': "length h' = Suc (length h)"
    by (simp add: h' h1_def h0_def length_copy_entries)
  have m1: "map_of (h1 ! r) = map_of (entries h map_1)"
  proof -
    have "map_of (h1 ! r) = map_of (h0 ! r) ++ map_of (rev (entries h0 map_1))"
      unfolding h1_def using len0 by (rule copy_entries_target)
    moreover have "h0 ! r = []" by (simp add: h0_def r_def)
    ultimately show ?thesis
      by (simp add: e1 map_of_rev_distinct [OF entries_distinct [OF v1]])
  qed
  have m': "map_of (h' ! r) = map_of (entries h map_1) ++ map_of (entries h map_2)"
  proof -
    have "map_of (h' ! r) = map_of (h1 ! r) ++ map_of (rev (entries h1 map_2))"
      unfolding h' using len1 by (rule copy_entries_target)
    then show ?thesis
      by (simp add: e2 m1 map_of_rev_distinct [OF entries_distinct [OF v2]])
  qed
  have idx: "map_index h' result k =
      (case map_index h map_2 k of Some v \<Rightarrow> Some v | None \<Rightarrow> map_index h map_1 k)"
  proof -
    have "map_index h' result k = (map_of (entries h map_1) ++ map_of (entries h map_2)) k"
      using m' by (simp add: map_index_def [of h'] res entries_def [of h'])
    then show ?thesis
      by (simp add: map_index_def map_add_def split: option.split)
  qed
  have dm: "k \<in> dom (map_index h' result) \<longleftrightarrow>
            k \<in> dom (map_index h map_1) \<or> k \<in> dom (map_index h map_2)"
    using idx by (auto simp: dom_def split: option.splits)
  have p1: "entries h' map_1 = entries h map_1"
    using v1 old' by (rule entries_preserved)
  have p2: "entries h' map_2 = entries h map_2"
    using v2 old' by (rule entries_preserved)
  have tk: "take (length h) h' = h"
    by (rule nth_equalityI) (simp_all add: len' old')
  have d0: "distinct (map fst (h0 ! r))" by (simp add: h0_def r_def)
  have d1: "distinct (map fst (h1 ! r))"
    unfolding h1_def using len0 d0 by (rule copy_entries_distinct)
  have d': "distinct (map fst (h' ! r))"
    unfolding h' using len1 d1 by (rule copy_entries_distinct)
  have vr: "valid_ref h' result"
    using d' by (simp add: valid_ref_def res len' r_def)
  show ?thesis using dm idx p1 p2 tk res vr by (simp add: r_def)
qed

theorem MergeMaps_merges_witness:
  "valid_ref demo_heap (Some 0) \<and> valid_ref demo_heap (Some 1) \<and>
   MergeMaps (Some 0) (Some 1) demo_heap =
     (Some 2, [[(''a'', 1), (''b'', 2)], [(''b'', 3), (''c'', 4)], [(''a'', 1), (''b'', 3), (''c'', 4)]]) \<and>
   map_index (snd (MergeMaps (Some 0) (Some 1) demo_heap)) (Some 2) ''b'' = Some 3 \<and>
   entries (snd (MergeMaps (Some 0) (Some 1) demo_heap)) (Some 0) = entries demo_heap (Some 0) \<and>
   entries (snd (MergeMaps (Some 0) (Some 1) demo_heap)) (Some 1) = entries demo_heap (Some 1)"
proof -
  have v1: "valid_ref demo_heap (Some 0)" and v2: "valid_ref demo_heap (Some 1)"
    by (simp_all add: valid_ref_def demo_heap_def)
  have run: "MergeMaps (Some 0) (Some 1) demo_heap =
     (Some 2, [[(''a'', 1), (''b'', 2)], [(''b'', 3), (''c'', 4)], [(''a'', 1), (''b'', 3), (''c'', 4)]])"
    by (simp add: MergeMaps_def make_map_def entries_def demo_heap_def map_assign_def Let_def)
  from MergeMaps_merges [OF v1 v2 run, of "''b''"] show ?thesis
    using v1 v2 run by (simp add: map_index_def entries_def demo_heap_def)
qed

section \<open>Properties of the types-interfaces module\<close>

subsection \<open>CompareShapes (exercise)\<close>

text \<open>
  C1. The contract of \<^verbatim>\<open>CompareShapes\<close> asks for -1 when the first area is the
  smaller and 1 when it is the larger. The exercise code answers the other way
  round: for a triangle of area 10 and a square of area 100 it returns 1, and -1
  with the arguments exchanged.
\<close>

theorem CompareShapes_reversed:
  "call_Area (Triangle_Shape \<lparr>Base = Finite 5, Height = Finite 4\<rparr>) = Inr (Finite 10) \<and>
   call_Area (Square_Shape \<lparr>Side = Finite 10\<rparr>) = Inr (Finite 100) \<and>
   CompareShapes (Triangle_Shape \<lparr>Base = Finite 5, Height = Finite 4\<rparr>)
     (Square_Shape \<lparr>Side = Finite 10\<rparr>) = Inr 1 \<and>
   CompareShapes (Square_Shape \<lparr>Side = Finite 10\<rparr>)
     (Triangle_Shape \<lparr>Base = Finite 5, Height = Finite 4\<rparr>) = Inr (- 1)"
  by (simp add: CompareShapes_def call_Area_def Square_Shape_def Triangle_Shape_def
      Square_Area_def Triangle_Area_def fmul_def)

subsection \<open>PrintShapeInfo and Stringify (exercise)\<close>






subsection \<open>GetIntValue (exercise and solution)\<close>

text \<open>
  C2. The exercise \<^verbatim>\<open>GetIntValue\<close> panics on every value that is not an \<^verbatim>\<open>int\<close> and
  returns the \<^verbatim>\<open>int\<close> otherwise. The solution never panics: it returns the \<^verbatim>\<open>int\<close>
  when the value is one and 0 otherwise.
\<close>

theorem GetIntValue_exercise_panics_solution_total:
  "((\<forall>i. v \<noteq> VInt i) \<longrightarrow> exercises_GetIntValue v = Inl (InterfaceConversion v ''int'')) \<and>
   exercises_GetIntValue (VInt i) = Inr i \<and>
   \<not> isl (solutions_GetIntValue v) \<and>
   solutions_GetIntValue (VInt i) = Inr i \<and>
   ((\<forall>i. v \<noteq> VInt i) \<longrightarrow> solutions_GetIntValue v = Inr 0)"
  by (cases v) (simp_all add: exercises_GetIntValue_def solutions_GetIntValue_def
      assert_int_def assert_int_ok_def)

theorem GetIntValue_exercise_panics_solution_total_witness:
  "(\<forall>i. VString ''go'' \<noteq> VInt i) \<and>
   exercises_GetIntValue (VString ''go'') = Inl (InterfaceConversion (VString ''go'') ''int'') \<and>
   solutions_GetIntValue (VString ''go'') = Inr 0"
  using GetIntValue_exercise_panics_solution_total [of "VString ''go''"] by simp

subsection \<open>ConvertToInt (solution)\<close>

lemma sint_float64_to_int:
  assumes "- (2 ^ 63) \<le> truncate_real r" and "truncate_real r < 2 ^ 63"
  shows "sint (float64_to_int u (Finite r)) = truncate_real r"
  using assms by (simp add: float64_to_int_def signed_of_int signed_take_bit_int_eq_self)

lemma sint_go_int_range: "- (2 ^ 63) \<le> sint (w :: go_int) \<and> sint w < 2 ^ 63"
  using sint_ge [of w] sint_lt [of w] by simp

text \<open>
  C3 (as amended). \<^verbatim>\<open>ConvertToInt\<close> returns an error exactly when the value is a
  string that \<^verbatim>\<open>strconv.Atoi\<close> rejects, or has a dynamic type besides \<^verbatim>\<open>int\<close>,
  \<^verbatim>\<open>float64\<close>, \<^verbatim>\<open>string\<close> and \<^verbatim>\<open>bool\<close> (\<^verbatim>\<open>nil\<close> included); with every error the number
  returned is 0. Without error it returns the \<^verbatim>\<open>int\<close> itself, the number
  \<^verbatim>\<open>strconv.Atoi\<close> parsed, and 1 or 0 for \<^verbatim>\<open>true\<close> or \<^verbatim>\<open>false\<close>. A \<^verbatim>\<open>float64\<close> never
  gives an error: a finite one whose truncation towards zero fits \<^verbatim>\<open>int\<close> gives
  that truncation; any other one (out of range, NaN, an infinity) gives the
  \<^verbatim>\<open>int\<close> the implementation chooses, which for a finite value is not its
  truncation.
\<close>

theorem ConvertToInt_errors_and_values:
  "(snd (ConvertToInt atoi u v) \<noteq> None \<longleftrightarrow>
      (\<exists>s. v = VString s \<and> snd (atoi s) \<noteq> None) \<or>
      \<not> ((\<exists>i. v = VInt i) \<or> (\<exists>x. v = VFloat64 x) \<or> (\<exists>s. v = VString s) \<or> (\<exists>b. v = VBool b))) \<and>
   (snd (ConvertToInt atoi u v) \<noteq> None \<longrightarrow> fst (ConvertToInt atoi u v) = 0) \<and>
   ConvertToInt atoi u (VInt i) = (i, None) \<and>
   snd (ConvertToInt atoi u (VFloat64 x)) = None \<and>
   (- (2 ^ 63) \<le> truncate_real r \<and> truncate_real r < 2 ^ 63 \<longrightarrow>
      sint (fst (ConvertToInt atoi u (VFloat64 (Finite r)))) = truncate_real r) \<and>
   (\<not> (- (2 ^ 63) \<le> truncate_real r' \<and> truncate_real r' < 2 ^ 63) \<longrightarrow>
      ConvertToInt atoi u (VFloat64 (Finite r')) = (u (Finite r'), None) \<and>
      sint (fst (ConvertToInt atoi u (VFloat64 (Finite r')))) \<noteq> truncate_real r') \<and>
   ConvertToInt atoi u (VFloat64 NaN) = (u NaN, None) \<and>
   ConvertToInt atoi u (VFloat64 PosInf) = (u PosInf, None) \<and>
   ConvertToInt atoi u (VFloat64 NegInf) = (u NegInf, None) \<and>
   (snd (atoi s) = None \<longrightarrow> ConvertToInt atoi u (VString s) = (fst (atoi s), None)) \<and>
   ConvertToInt atoi u (VBool True) = (1, None) \<and>
   ConvertToInt atoi u (VBool False) = (0, None)"
proof -
  have err: "snd (ConvertToInt atoi u v) \<noteq> None \<longleftrightarrow>
      (\<exists>s. v = VString s \<and> snd (atoi s) \<noteq> None) \<or>
      \<not> ((\<exists>i. v = VInt i) \<or> (\<exists>x. v = VFloat64 x) \<or> (\<exists>s. v = VString s) \<or> (\<exists>b. v = VBool b))"
    by (cases v) (auto simp: ConvertToInt_def split: prod.splits option.splits)
  have zero: "snd (ConvertToInt atoi u v) \<noteq> None \<longrightarrow> fst (ConvertToInt atoi u v) = 0"
    by (cases v) (auto simp: ConvertToInt_def split: prod.splits option.splits)
  have str: "snd (atoi s) = None \<longrightarrow> ConvertToInt atoi u (VString s) = (fst (atoi s), None)"
    by (auto simp: ConvertToInt_def split: prod.splits option.splits)
  have fit: "- (2 ^ 63) \<le> truncate_real r \<and> truncate_real r < 2 ^ 63 \<longrightarrow>
      sint (fst (ConvertToInt atoi u (VFloat64 (Finite r)))) = truncate_real r"
    using sint_float64_to_int [of r u] by (simp add: ConvertToInt_def)
  have unfit: "\<not> (- (2 ^ 63) \<le> truncate_real r' \<and> truncate_real r' < 2 ^ 63) \<longrightarrow>
      ConvertToInt atoi u (VFloat64 (Finite r')) = (u (Finite r'), None) \<and>
      sint (fst (ConvertToInt atoi u (VFloat64 (Finite r')))) \<noteq> truncate_real r'"
    using sint_go_int_range [of "u (Finite r')"]
    by (auto simp: ConvertToInt_def float64_to_int_def)
  have rest: "ConvertToInt atoi u (VInt i) = (i, None)"
    "snd (ConvertToInt atoi u (VFloat64 x)) = None"
    "ConvertToInt atoi u (VFloat64 NaN) = (u NaN, None)"
    "ConvertToInt atoi u (VFloat64 PosInf) = (u PosInf, None)"
    "ConvertToInt atoi u (VFloat64 NegInf) = (u NegInf, None)"
    "ConvertToInt atoi u (VBool True) = (1, None)"
    "ConvertToInt atoi u (VBool False) = (0, None)"
    by (simp_all add: ConvertToInt_def float64_to_int_def)
  show ?thesis using err zero str fit unfit rest by blast
qed

theorem ConvertToInt_errors_and_values_witness:
  "snd (ConvertToInt Atoi amd64_unrepresentable (VString ''12a'')) \<noteq> None \<and>
   ConvertToInt Atoi amd64_unrepresentable (VString ''12a'') =
     (0, Some (CannotConvertString ''12a'' ErrSyntax)) \<and>
   ConvertToInt Atoi amd64_unrepresentable (VOther ''[]int'') =
     (0, Some (CannotConvertType (VOther ''[]int''))) \<and>
   ConvertToInt Atoi amd64_unrepresentable VNil = (0, Some (CannotConvertType VNil)) \<and>
   snd (Atoi ''-123'') = None \<and>
   ConvertToInt Atoi amd64_unrepresentable (VString ''-123'') = (- 123, None) \<and>
   - (2 ^ 63) \<le> truncate_real (- 2.5) \<and> truncate_real (- 2.5) < 2 ^ 63 \<and>
   ConvertToInt Atoi amd64_unrepresentable (VFloat64 (Finite (- 2.5))) = (- 2, None) \<and>
   \<not> truncate_real 10000000000000000000 < 2 ^ 63 \<and>
   ConvertToInt Atoi amd64_unrepresentable (VFloat64 (Finite 10000000000000000000)) =
     (- 9223372036854775808, None)"
proof -
  have a: "Atoi ''12a'' = (0, Some ErrSyntax)" "Atoi ''-123'' = (- 123, None)"
    by (simp_all add: Atoi_def digit_value_def)
  have c: "truncate_real (- 2.5) = - 2" "truncate_real 10000000000000000000 = 10000000000000000000"
    by (simp_all add: truncate_real_def ceiling_eq_iff)
  show ?thesis
    using ConvertToInt_errors_and_values
      [of Atoi amd64_unrepresentable "VString ''12a''" _ _ "- 2.5" "10000000000000000000" "''-123''"] a c
    by (simp add: ConvertToInt_def float64_to_int_def amd64_unrepresentable_def)
qed

text \<open>
  The claim as stated, that a \<^verbatim>\<open>float64\<close> is returned truncated, fails where the
  truncation does not fit \<^verbatim>\<open>int\<close>: 9223372036854775808, two to the power 63, is a
  \<^verbatim>\<open>float64\<close> and its own truncation, and the code returns the smallest \<^verbatim>\<open>int\<close> for
  it (on amd64), with no error. For NaN there is nothing to truncate, and again no
  error.
\<close>

theorem ConvertToInt_float_counterexample:
  "ConvertToInt Atoi amd64_unrepresentable (VFloat64 (Finite 9223372036854775808)) =
     (- 9223372036854775808, None) \<and>
   truncate_real 9223372036854775808 = 9223372036854775808 \<and>
   sint (- 9223372036854775808 :: go_int) = - 9223372036854775808 \<and>
   ConvertToInt Atoi amd64_unrepresentable (VFloat64 NaN) = (- 9223372036854775808, None)"
  by (simp add: ConvertToInt_def float64_to_int_def amd64_unrepresentable_def truncate_real_def)

subsection \<open>TypeSafeMap (solution)\<close>


text \<open>
  On a \<^verbatim>\<open>TypeSafeMap\<close> whose map is made, as \<^verbatim>\<open>NewTypeSafeMap\<close> returns it and \<^verbatim>\<open>Set\<close>
  keeps it, the round trip holds: \<^verbatim>\<open>Set\<close> returns, the key is contained, \<^verbatim>\<open>GetInt\<close>
  gives back a stored \<^verbatim>\<open>int\<close> and 0 for any other value, \<^verbatim>\<open>GetString\<close> gives the
  empty string for a value that is no string, and the other keys are as before;
  a new map contains no key.
\<close>

lemma TypeSafeMap_round_trip_initialised:
  assumes "data t = Some d"
  shows "\<exists>t'. TypeSafeMap_Set (Some t) k x = Inr (Some t') \<and> data t' = Some (d(k \<mapsto> x)) \<and>
           TypeSafeMap_Contains (Some t') k = Inr True \<and>
           (x = VInt v \<longrightarrow> TypeSafeMap_GetInt (Some t') k = Inr v) \<and>
           ((\<forall>i. x \<noteq> VInt i) \<longrightarrow> TypeSafeMap_GetInt (Some t') k = Inr 0) \<and>
           ((\<forall>s. x \<noteq> VString s) \<longrightarrow> TypeSafeMap_GetString (Some t') k = Inr '''') \<and>
           (k' \<noteq> k \<longrightarrow> TypeSafeMap_Contains (Some t') k' = TypeSafeMap_Contains (Some t) k' \<and>
                     TypeSafeMap_GetInt (Some t') k' = TypeSafeMap_GetInt (Some t) k')"
  using assms
  by (cases x)
     (simp_all add: TypeSafeMap_Set_def TypeSafeMap_Contains_def TypeSafeMap_GetInt_def
        TypeSafeMap_GetString_def map_read_def assert_int_ok_def assert_string_ok_def)

lemma TypeSafeMap_new_empty:
  "TypeSafeMap_Contains NewTypeSafeMap k = Inr False \<and> TypeSafeMap_GetInt NewTypeSafeMap k = Inr 0"
  by (simp add: NewTypeSafeMap_def TypeSafeMap_Contains_def TypeSafeMap_GetInt_def map_read_def)

end
